theory Spec2Isabelle
  imports Main "HOL-Library.Sublist" "HOL-Library.AList"
begin

section \<open>Values and exceptions\<close>

text \<open>
  A Python \<open>str\<close> is modelled as a \<open>string\<close>, each \<open>char\<close> read as one code point
  in the range U+0000 to U+00FF. The values that \<open>json.loads\<close> builds and that
  \<open>jsonify\<close> sends are the constructors of \<open>json\<close>; a Python \<open>dict\<close> with string keys
  is an association list with distinct keys in insertion order. A float is kept as
  the text of its literal: the conversion to a binary double is not modelled.
\<close>

datatype json =
    JNull
  | JBool bool
  | JInt int
  | JFloat string
  | JString string
  | JArray "json list"
  | JObject "(string \<times> json) list"

text \<open>
  The exception classes that the \<open>except\<close> clauses of \<open>apiplanner.py\<close> tell apart.
  Each carries \<open>str(e)\<close>.
\<close>

datatype exn =
    JSONDecodeError string
  | LangChainException string
  | OtherException string

fun str_exn :: "exn \<Rightarrow> string" where
  "str_exn (JSONDecodeError m) = m"
| "str_exn (LangChainException m) = m"
| "str_exn (OtherException m) = m"

section \<open>The string methods used by the program\<close>

text \<open>
  \<open>s.replace(old, new)\<close>: every non-overlapping occurrence of \<open>old\<close>, found from left
  to right, is replaced. For an empty \<open>old\<close> Python inserts \<open>new\<close> before every character
  and at the end.
\<close>

function replace :: "string \<Rightarrow> string \<Rightarrow> string \<Rightarrow> string" where
  "replace old new [] = (if old = [] then new else [])"
| "replace old new (c # cs) =
     (if old = [] then new @ c # replace old new cs
      else if prefix old (c # cs) then new @ replace old new (drop (length old) (c # cs))
      else c # replace old new cs)"
  by pat_completeness auto
termination
  by (relation "measure (\<lambda>(old, new, s). length s)") auto

text \<open>
  \<open>str.isspace\<close> on one character, for the code points below 256; \<open>s.strip()\<close> removes
  these characters from both ends.
\<close>

definition isspace :: "char \<Rightarrow> bool" where
  "isspace c = ((of_char c :: nat) \<in> set [9, 10, 11, 12, 13, 28, 29, 30, 31, 32, 133, 160])"

definition strip :: "string \<Rightarrow> string" where
  "strip s = rev (dropWhile isspace (rev (dropWhile isspace s)))"


section \<open>The standard library's JSON decoder\<close>

text \<open>
  \<open>json.loads\<close> on a \<open>str\<close>, after the decoder of CPython 3.11 (\<open>json.decoder\<close> with
  the scanner of the \<open>_json\<close> accelerator): the grammar, the order of the checks, the
  messages and the positions of \<open>JSONDecodeError\<close>. The decoder reads the text from
  left to right; here every function takes the index \<open>pos\<close> of the next character
  together with the text from that index on. The recursion runs on a counter that
  \<open>json_loads\<close> starts high enough for the whole text (\<open>scan_once_fuel\<close> below), so
  \<open>Exhausted\<close> is never its result. The interpreter's recursion limit and its limit
  on the digits of an integer are not modelled. A \<open>\uXXXX\<close> escape of a code point
  below 256 is decoded; one above that range, which a \<open>char\<close> cannot hold, is kept as
  its six characters. The scanner asks for a character after the four digits of an
  escape, as the accelerator does.
\<close>

definition is_json_ws :: "char \<Rightarrow> bool" where
  "is_json_ws c = (c = CHR '' '' \<or> c = CHR 0x09 \<or> c = CHR 0x0A \<or> c = CHR 0x0D)"

definition skip_ws :: "nat \<Rightarrow> string \<Rightarrow> nat \<times> string" where
  "skip_ws pos s = (pos + length (takeWhile is_json_ws s), dropWhile is_json_ws s)"

definition next_is :: "char \<Rightarrow> string \<Rightarrow> bool" where
  "next_is c s = (case s of [] \<Rightarrow> False | d # _ \<Rightarrow> d = c)"

definition is_digit :: "char \<Rightarrow> bool" where
  "is_digit c = (48 \<le> (of_char c :: nat) \<and> (of_char c :: nat) \<le> 57)"

definition hex_value :: "char \<Rightarrow> nat option" where
  "hex_value c =
     (let n = (of_char c :: nat) in
      if 48 \<le> n \<and> n \<le> 57 then Some (n - 48)
      else if 97 \<le> n \<and> n \<le> 102 then Some (n - 87)
      else if 65 \<le> n \<and> n \<le> 70 then Some (n - 55)
      else None)"

fun hex4 :: "string \<Rightarrow> nat option" where
  "hex4 [a, b, c, d] =
     (case (hex_value a, hex_value b, hex_value c, hex_value d) of
        (Some x, Some y, Some z, Some w) \<Rightarrow> Some (((x * 16 + y) * 16 + z) * 16 + w)
      | _ \<Rightarrow> None)"
| "hex4 _ = None"

definition backslash_escape :: "char \<Rightarrow> char option" where
  "backslash_escape e =
     (if e = CHR 0x22 then Some (CHR 0x22)
      else if e = CHR 0x5C then Some (CHR 0x5C)
      else if e = CHR ''/'' then Some (CHR ''/'')
      else if e = CHR ''b'' then Some (CHR 0x08)
      else if e = CHR ''f'' then Some (CHR 0x0C)
      else if e = CHR ''n'' then Some (CHR 0x0A)
      else if e = CHR ''r'' then Some (CHR 0x0D)
      else if e = CHR ''t'' then Some (CHR 0x09)
      else None)"

text \<open>
  The result of scanning from an index: the value with the index after it and the
  remaining text, or the message and position of the \<open>JSONDecodeError\<close>.
\<close>

datatype 'a scanned = Scanned 'a nat string | Failed string nat | Exhausted

fun scanstring :: "nat \<Rightarrow> nat \<Rightarrow> string \<Rightarrow> string \<Rightarrow> string scanned" where
  "scanstring begin pos acc [] = Failed ''Unterminated string starting at'' begin"
| "scanstring begin pos acc (c # cs) =
     (if c = CHR 0x22 then Scanned acc (pos + 1) cs
      else if c = CHR 0x5C then
        (case cs of
           [] \<Rightarrow> Failed ''Unterminated string starting at'' begin
         | e # es \<Rightarrow>
             if e = CHR ''u'' then
               (if length es < 5
                then Failed (''Invalid '' @ [CHR 0x5C] @ ''uXXXX escape'') (pos + 1)
                else
                  (case hex4 (take 4 es) of
                     None \<Rightarrow> Failed (''Invalid '' @ [CHR 0x5C] @ ''uXXXX escape'') (pos + 1)
                   | Some n \<Rightarrow>
                       scanstring begin (pos + 6)
                         (acc @ (if n < 256 then [char_of n] else c # e # take 4 es))
                         (drop 4 es)))
             else
               (case backslash_escape e of
                  None \<Rightarrow> Failed (''Invalid '' @ [CHR 0x5C] @ ''escape'') pos
                | Some d \<Rightarrow> scanstring begin (pos + 2) (acc @ [d]) es))
      else if (of_char c :: nat) < 32 then Failed ''Invalid control character at'' pos
      else scanstring begin (pos + 1) (acc @ [c]) cs)"

definition nat_of_digits :: "string \<Rightarrow> nat" where
  "nat_of_digits ds = foldl (\<lambda>n c. 10 * n + (of_char c - 48)) 0 ds"

definition match_number :: "string \<Rightarrow> (json \<times> nat) option" where
  "match_number s =
     (let sign = (if next_is (CHR ''-'') s then ''-'' else '''');
          s1 = drop (length sign) s;
          ip = (if next_is (CHR ''0'') s1 then ''0'' else takeWhile is_digit s1);
          s2 = drop (length ip) s1;
          fr = (if next_is (CHR ''.'') s2 \<and> takeWhile is_digit (tl s2) \<noteq> []
                then CHR ''.'' # takeWhile is_digit (tl s2) else '''');
          s3 = drop (length fr) s2;
          es = (if next_is (CHR ''+'') (tl s3) \<or> next_is (CHR ''-'') (tl s3)
                then [hd (tl s3)] else '''');
          ed = takeWhile is_digit (drop (Suc (length es)) s3);
          ex = (if (next_is (CHR ''e'') s3 \<or> next_is (CHR ''E'') s3) \<and> ed \<noteq> []
                then hd s3 # es @ ed else '''');
          lexeme = sign @ ip @ fr @ ex
      in if ip = [] then None
         else if fr = [] \<and> ex = [] then
           Some (JInt (if sign = [] then int (nat_of_digits ip) else - int (nat_of_digits ip)),
                 length lexeme)
         else Some (JFloat lexeme, length lexeme))"

fun scan_once :: "nat \<Rightarrow> nat \<Rightarrow> string \<Rightarrow> json scanned"
  and parse_object :: "nat \<Rightarrow> (string \<times> json) list \<Rightarrow> nat \<Rightarrow> string \<Rightarrow> json scanned"
  and parse_array :: "nat \<Rightarrow> json list \<Rightarrow> nat \<Rightarrow> string \<Rightarrow> json scanned" where
  "scan_once 0 pos s = Exhausted"
| "scan_once (Suc fuel) pos s =
     (if s = [] then Failed ''Expecting value'' pos
      else if next_is (CHR 0x22) s then
        (case scanstring pos (pos + 1) [] (tl s) of
           Scanned str p r \<Rightarrow> Scanned (JString str) p r
         | Failed m p \<Rightarrow> Failed m p
         | Exhausted \<Rightarrow> Exhausted)
      else if next_is (CHR ''{'') s then
        (case skip_ws (pos + 1) (tl s) of (p, r) \<Rightarrow>
           if next_is (CHR ''}'') r then Scanned (JObject []) (p + 1) (tl r)
           else parse_object fuel [] p r)
      else if next_is (CHR ''['') s then
        (case skip_ws (pos + 1) (tl s) of (p, r) \<Rightarrow>
           if next_is (CHR '']'') r then Scanned (JArray []) (p + 1) (tl r)
           else parse_array fuel [] p r)
      else if prefix ''null'' s then Scanned JNull (pos + 4) (drop 4 s)
      else if prefix ''true'' s then Scanned (JBool True) (pos + 4) (drop 4 s)
      else if prefix ''false'' s then Scanned (JBool False) (pos + 5) (drop 5 s)
      else if prefix ''NaN'' s then Scanned (JFloat ''NaN'') (pos + 3) (drop 3 s)
      else if prefix ''Infinity'' s then Scanned (JFloat ''Infinity'') (pos + 8) (drop 8 s)
      else if prefix ''-Infinity'' s then Scanned (JFloat ''-Infinity'') (pos + 9) (drop 9 s)
      else
        (case match_number s of
           None \<Rightarrow> Failed ''Expecting value'' pos
         | Some (v, k) \<Rightarrow> Scanned v (pos + k) (drop k s)))"
| "parse_object 0 pairs pos s = Exhausted"
| "parse_object (Suc fuel) pairs pos s =
     (if \<not> next_is (CHR 0x22) s
      then Failed ''Expecting property name enclosed in double quotes'' pos
      else
        (case scanstring pos (pos + 1) [] (tl s) of
           Failed m p \<Rightarrow> Failed m p
         | Exhausted \<Rightarrow> Exhausted
         | Scanned key p0 r0 \<Rightarrow>
            (case skip_ws p0 r0 of (p1, r1) \<Rightarrow>
               if \<not> next_is (CHR '':'') r1 then Failed ''Expecting ':' delimiter'' p1
               else
                 (case skip_ws (p1 + 1) (tl r1) of (p2, r2) \<Rightarrow>
                    (case scan_once fuel p2 r2 of
                       Failed m p \<Rightarrow> Failed m p
                     | Exhausted \<Rightarrow> Exhausted
                     | Scanned v p3 r3 \<Rightarrow>
                        (case skip_ws p3 r3 of (p4, r4) \<Rightarrow>
                           if next_is (CHR ''}'') r4
                           then Scanned (JObject (AList.update key v pairs)) (p4 + 1) (tl r4)
                           else if \<not> next_is (CHR '','') r4
                           then Failed ''Expecting ',' delimiter'' p4
                           else
                             (case skip_ws (p4 + 1) (tl r4) of (p5, r5) \<Rightarrow>
                                parse_object fuel (AList.update key v pairs) p5 r5)))))))"
| "parse_array 0 acc pos s = Exhausted"
| "parse_array (Suc fuel) acc pos s =
     (case scan_once fuel pos s of
        Failed m p \<Rightarrow> Failed m p
      | Exhausted \<Rightarrow> Exhausted
      | Scanned v p0 r0 \<Rightarrow>
         (case skip_ws p0 r0 of (p1, r1) \<Rightarrow>
            if next_is (CHR '']'') r1 then Scanned (JArray (acc @ [v])) (p1 + 1) (tl r1)
            else if \<not> next_is (CHR '','') r1 then Failed ''Expecting ',' delimiter'' p1
            else
              (case skip_ws (p1 + 1) (tl r1) of (p2, r2) \<Rightarrow>
                 parse_array fuel (acc @ [v]) p2 r2)))"

function string_of_nat :: "nat \<Rightarrow> string" where
  "string_of_nat n =
     (if n < 10 then [char_of (48 + n)]
      else string_of_nat (n div 10) @ [char_of (48 + n mod 10)])"
  by pat_completeness auto
termination
  by (relation "measure id") auto

text \<open>
  \<open>JSONDecodeError(msg, doc, pos)\<close>: the message with the line, the column and the
  index of the position.
\<close>

definition errmsg :: "string \<Rightarrow> string \<Rightarrow> nat \<Rightarrow> string" where
  "errmsg msg doc pos =
     (let pre = take pos doc;
          lineno = length (filter (\<lambda>c. c = CHR 0x0A) pre) + 1;
          colno = length (takeWhile (\<lambda>c. c \<noteq> CHR 0x0A) (rev pre)) + 1
      in msg @ '': line '' @ string_of_nat lineno @ '' column '' @ string_of_nat colno
           @ '' (char '' @ string_of_nat pos @ '')'')"

definition json_loads :: "string \<Rightarrow> exn + json" where
  "json_loads s =
     (case skip_ws 0 s of (p, r) \<Rightarrow>
        (case scan_once (Suc (2 * length s)) p r of
           Failed m q \<Rightarrow> Inl (JSONDecodeError (errmsg m s q))
         | Exhausted \<Rightarrow> Inl (OtherException ''maximum recursion depth exceeded'')
         | Scanned v q r' \<Rightarrow>
            (case skip_ws q r' of (q', r'') \<Rightarrow>
               if r'' = [] then Inr v
               else Inl (JSONDecodeError (errmsg ''Extra data'' s q')))))"

section \<open>The remote model\<close>

text \<open>
  An \<open>AIMessage\<close> as the program reads it: its \<open>content\<close>, its parsed \<open>tool_calls\<close>
  (only tested for emptiness) and the value of \<open>additional_kwargs.get("tool_calls")\<close>,
  \<open>None\<close> when the key is absent. Each raw tool call is read at
  \<open>tc["function"]["name"]\<close> and \<open>tc["function"]["arguments"]\<close>.
\<close>

record tool_call =
  tc_name :: string
  tc_args :: json
  tc_id :: string

record raw_tool_call =
  function_name :: string
  function_arguments :: string

record ai_message =
  content :: string
  tool_calls :: "tool_call list"
  additional_kwargs :: "raw_tool_call list option"

datatype message = SystemMessage string | HumanMessage string

datatype llm_response = AIMessage ai_message | OtherResponse

text \<open>
  The client handle \<open>ChatGroq\<close>: \<open>invoke\<close> is \<open>main_llm.invoke(prompt)\<close> and
  \<open>bind_tools_invoke names msgs\<close> is \<open>main_llm.bind_tools(tools).invoke(msgs)\<close> for the
  tools of those names. Either call returns or raises; the remote model is taken as
  a function of what it is sent.
\<close>

record llm =
  invoke :: "string \<Rightarrow> exn + ai_message"
  bind_tools_invoke :: "string list \<Rightarrow> message list \<Rightarrow> exn + llm_response"

text \<open>
  Lines 21 to 35: \<open>api_key\<close> is the value of \<open>os.getenv("GROQ_API_KEY")\<close> and \<open>ChatGroq\<close>
  the constructor of the client, which may raise.
\<close>

definition main_llm :: "string option \<Rightarrow> (string \<Rightarrow> exn + llm) \<Rightarrow> llm option" where
  "main_llm api_key ChatGroq =
     (case api_key of
        None \<Rightarrow> None
      | Some k \<Rightarrow>
          if k = [] \<or> k = ''your_groq_api_key_here'' then None
          else (case ChatGroq k of Inl e \<Rightarrow> None | Inr h \<Rightarrow> Some h))"

section \<open>The endpoint's values\<close>

text \<open>
  \<open>AttributeError\<close> for a missing attribute of a value, with the message Python
  gives it.
\<close>

fun type_name :: "json \<Rightarrow> string" where
  "type_name JNull = ''NoneType''"
| "type_name (JBool b) = ''bool''"
| "type_name (JInt i) = ''int''"
| "type_name (JFloat f) = ''float''"
| "type_name (JString s) = ''str''"
| "type_name (JArray xs) = ''list''"
| "type_name (JObject d) = ''dict''"

definition attribute_error :: "json \<Rightarrow> string \<Rightarrow> exn" where
  "attribute_error v attr =
     OtherException ([CHR 0x27] @ type_name v @ [CHR 0x27] @ '' object has no attribute ''
                     @ [CHR 0x27] @ attr @ [CHR 0x27])"

definition error_dict :: "string \<Rightarrow> json" where
  "error_dict m = JObject [(''error'', JString m)]"

section \<open>The itinerary tool\<close>

definition prompt :: "string \<Rightarrow> string" where
  \<open>prompt destination =
     [CHR 0x0A] @ concat (map (\<lambda>line. line @ [CHR 0x0A])
      [''    Create an itinerary for '' @ destination @ '' including:'',
       ''    - Real elevation data in meters.'',
       ''    - Ensure the latitude and longitude of a location do not repeat; make small adjustments (even 0.0001) if necessary.'',
       ''    - Include notable landmarks.'',
       ''    - Make sure the coordinates are as accurate as possible'',
       ''    - Start the itinerary from Kathmandu if the destination is in Nepal.'',
       ''    '',
       ''    Format as JSON with this structure:'',
       ''    {'',
       ''      "itinerary": ['',
       ''        {'',
       ''          "day": 1,'',
       ''          "location": "Name",'',
       ''          "elevation": 1000,'',
       ''          "coordinates": {'',
       ''            "latitude": 28.1234,'',
       ''            "longitude": 83.5678'',
       ''          },'',
       ''          "highlight": "Main feature",'',
       ''          "description": {'',
       ''            "trekking_duration": "Approximate trekking duration.",'',
       ''            "key_highlights": ['',
       ''              "Scenic views, cultural experiences, or notable landmarks."'',
       ''            ],'',
       ''            "permits": "Information about required permits.",'',
       ''            "best_time_to_visit": "Best time to visit.",'',
       ''            "difficulty_level": "Brief overview of difficulty level.",'',
       ''            "tips": ['',
       ''              "Additional tips or recommendations for trekkers (e.g., packing essentials, acclimatization advice, pass)."'',
       ''            ]'',
       ''          }'',
       ''        }'',
       ''      ]'',
       ''    }'',
       ''    Do not write anything else, not even ```json or ```.''])
     @ ''    ''\<close>

text \<open>
  The \<open>try\<close> block of \<open>generate_itinerary\<close> (lines 79 to 91). With \<open>main_llm\<close> unset the
  attribute access \<open>main_llm.invoke\<close> raises \<open>AttributeError\<close>.
\<close>

definition generate_itinerary_try :: "llm option \<Rightarrow> string \<Rightarrow> exn + json" where
  "generate_itinerary_try llm_handle destination =
     (case llm_handle of
        None \<Rightarrow> Inl (attribute_error JNull ''invoke'')
      | Some l \<Rightarrow>
         (case invoke l (prompt destination) of
            Inl e \<Rightarrow> Inl e
          | Inr response \<Rightarrow>
              if strip (content response) = []
              then Inr (error_dict ''Empty response received from model.'')
              else json_loads
                     (strip (replace ''<tool-use></tool-use>'' []
                        (replace ''```'' []
                           (replace ''```json'' [] (content response)))))))"

text \<open>The function with its \<open>except Exception\<close> clause (lines 92 and 93).\<close>

definition generate_itinerary :: "llm option \<Rightarrow> string \<Rightarrow> json" where
  "generate_itinerary llm_handle destination =
     (case generate_itinerary_try llm_handle destination of
        Inr v \<Rightarrow> v
      | Inl e \<Rightarrow> error_dict (str_exn e))"

text \<open>
  The \<open>@tool\<close> decorator wraps the function into a tool named after it, whose
  \<open>invoke\<close> first binds the arguments to the signature \<open>(destination: str)\<close> and raises
  when they do not fit. That binding is the library's; it is the parameter
  \<open>bind_args\<close> here.
\<close>

record tool =
  tool_name :: string
  tool_invoke :: "json \<Rightarrow> exn + json"

definition generate_itinerary_tool :: "(json \<Rightarrow> exn + string) \<Rightarrow> llm option \<Rightarrow> tool" where
  "generate_itinerary_tool bind_args llm_handle =
     \<lparr>tool_name = ''generate_itinerary'',
      tool_invoke = (\<lambda>args.
        case bind_args args of
          Inl e \<Rightarrow> Inl e
        | Inr destination \<Rightarrow> Inr (generate_itinerary llm_handle destination))\<rparr>"

definition tools :: "(json \<Rightarrow> exn + string) \<Rightarrow> llm option \<Rightarrow> tool list" where
  "tools bind_args llm_handle = [generate_itinerary_tool bind_args llm_handle]"

section \<open>Dispatch of the tool calls\<close>

type_synonym dict = "(string \<times> json) list"

text \<open>\<open>{t.name: t for t in tools}\<close>: a later tool of the same name replaces an earlier one.\<close>

definition tool_map :: "tool list \<Rightarrow> string \<rightharpoonup> tool" where
  "tool_map ts = foldl (\<lambda>m t. m(tool_name t \<mapsto> t)) Map.empty ts"

text \<open>
  The body of the loop of \<open>handle_tool_calls\<close>: the \<open>try\<close> block (lines 110 to 120),
  which yields the dictionary it appends or the exception it raises, and the two
  \<open>except\<close> clauses after it.
\<close>

definition tool_call_try :: "(string \<rightharpoonup> tool) \<Rightarrow> raw_tool_call \<Rightarrow> exn + dict" where
  "tool_call_try tm tc =
     (let func_name = function_name tc in
      case json_loads (function_arguments tc) of
        Inl e \<Rightarrow> Inl e
      | Inr args \<Rightarrow>
         (case tm func_name of
            None \<Rightarrow> Inr [(''tool'', JString func_name), (''status'', JString ''not_found'')]
          | Some t \<Rightarrow>
             (case tool_invoke t args of
                Inl e \<Rightarrow> Inl e
              | Inr tool_result \<Rightarrow>
                  Inr [(''tool'', JString func_name), (''arguments'', args),
                       (''result'', tool_result)])))"

definition tool_call_outcome :: "(string \<rightharpoonup> tool) \<Rightarrow> raw_tool_call \<Rightarrow> dict" where
  "tool_call_outcome tm tc =
     (case tool_call_try tm tc of
        Inr d \<Rightarrow> d
      | Inl (JSONDecodeError m) \<Rightarrow>
          [(''tool'', JString (function_name tc)), (''status'', JString ''invalid_json'')]
      | Inl e \<Rightarrow> [(''tool'', JString (function_name tc)), (''error'', JString (str_exn e))])"

fun handle_loop :: "(string \<rightharpoonup> tool) \<Rightarrow> dict list \<Rightarrow> raw_tool_call list \<Rightarrow> dict list" where
  "handle_loop tm results [] = results"
| "handle_loop tm results (tc # tcs) = handle_loop tm (results @ [tool_call_outcome tm tc]) tcs"

definition handle_tool_calls :: "tool list \<Rightarrow> ai_message \<Rightarrow> dict list" where
  "handle_tool_calls ts response =
     (case additional_kwargs response of
        None \<Rightarrow> [[(''status'', JString ''no_tool_calls'')]]
      | Some tcs \<Rightarrow>
          if tcs = [] then [[(''status'', JString ''no_tool_calls'')]]
          else handle_loop (tool_map ts) [] tcs)"

section \<open>The endpoint\<close>

text \<open>
  A request is what \<open>request.get_json()\<close> gives for it: the parsed body, or the
  exception Flask raises for a body it cannot parse. A response is the status with
  the body given to \<open>jsonify\<close>; the view returns \<open>None\<close> when it reaches its end
  without a \<open>return\<close>.
\<close>

record request =
  get_json :: "exn + json"

type_synonym response = "nat \<times> json"

text \<open>\<open>data.get("query", "").strip()\<close> (line 147).\<close>

definition user_input_of :: "json \<Rightarrow> exn + string" where
  "user_input_of data =
     (case data of
        JObject d \<Rightarrow>
          (case map_of d ''query'' of
             None \<Rightarrow> Inr (strip [])
           | Some (JString s) \<Rightarrow> Inr (strip s)
           | Some v \<Rightarrow> Inl (attribute_error v ''strip''))
      | v \<Rightarrow> Inl (attribute_error v ''get''))"

text \<open>The loop over the outcomes (lines 166 to 170).\<close>

fun first_response :: "dict list \<Rightarrow> response option" where
  "first_response [] = None"
| "first_response (result # rest) =
     (case map_of result ''result'' of
        Some r \<Rightarrow> Some (200, JObject [(''itinerary'', r)])
      | None \<Rightarrow>
         (case map_of result ''error'' of
            Some e \<Rightarrow> Some (400, JObject [(''error'', e)])
          | None \<Rightarrow> first_response rest))"

definition system_prompt :: string where
  "system_prompt =
     ''You are a friendly travel expert. Use tools only when asked for specific itineraries.''"

text \<open>The \<open>try\<close> block of the view (lines 133 to 176).\<close>

definition generate_itinerary_api_try ::
  "llm option \<Rightarrow> tool list \<Rightarrow> request \<Rightarrow> exn + response option" where
  "generate_itinerary_api_try llm_handle ts req =
     (case llm_handle of
        None \<Rightarrow>
          Inr (Some (503, error_dict
            ''Service temporarily unavailable. Please configure GROQ_API_KEY environment variable.''))
      | Some l \<Rightarrow>
         (case get_json req of
            Inl e \<Rightarrow> Inl e
          | Inr data \<Rightarrow>
             (case user_input_of data of
                Inl e \<Rightarrow> Inl e
              | Inr user_input \<Rightarrow>
                  if user_input = [] then Inr (Some (400, error_dict ''No query provided''))
                  else
                    (case bind_tools_invoke l (map tool_name ts)
                            [SystemMessage system_prompt, HumanMessage user_input] of
                       Inl e \<Rightarrow> Inl e
                     | Inr (AIMessage response) \<Rightarrow>
                         if tool_calls response \<noteq> []
                         then Inr (first_response (handle_tool_calls ts response))
                         else Inr (Some (200, JObject [(''response'', JString (content response))]))
                     | Inr OtherResponse \<Rightarrow>
                         Inr (Some (500, error_dict ''Unexpected response format''))))))"

text \<open>The view with its two \<open>except\<close> clauses (lines 178 to 181).\<close>

definition generate_itinerary_api :: "llm option \<Rightarrow> tool list \<Rightarrow> request \<Rightarrow> response option" where
  "generate_itinerary_api llm_handle ts req =
     (case generate_itinerary_api_try llm_handle ts req of
        Inr r \<Rightarrow> r
      | Inl (LangChainException m) \<Rightarrow> Some (500, error_dict (''System error: '' @ m))
      | Inl e \<Rightarrow> Some (500, error_dict (''Unexpected error: '' @ str_exn e)))"

section \<open>Concrete inputs\<close>

text \<open>
  A remote model that answers every prompt with the same text and every conversation
  with the same response, and a message that proposes the given tool calls.
\<close>

definition reply :: "string \<Rightarrow> ai_message" where
  "reply txt = \<lparr>content = txt, tool_calls = [], additional_kwargs = None\<rparr>"

definition fixed_llm :: "string \<Rightarrow> llm_response \<Rightarrow> llm" where
  "fixed_llm txt r =
     \<lparr>invoke = (\<lambda>p. Inr (reply txt)), bind_tools_invoke = (\<lambda>names msgs. Inr r)\<rparr>"

definition proposing :: "raw_tool_call list \<Rightarrow> ai_message" where
  "proposing tcs =
     \<lparr>content = [],
      tool_calls = map (\<lambda>tc. \<lparr>tc_name = function_name tc, tc_args = JNull, tc_id = []\<rparr>) tcs,
      additional_kwargs = Some tcs\<rparr>"

definition raw_call :: "string \<Rightarrow> string \<Rightarrow> raw_tool_call" where
  "raw_call n a = \<lparr>function_name = n, function_arguments = a\<rparr>"

text \<open>
  A binding of the arguments that accepts a dictionary with a string under
  \<open>destination\<close> and raises for anything else, as the decorator's validation does.
\<close>

definition bind_destination :: "json \<Rightarrow> exn + string" where
  "bind_destination args =
     (case args of
        JObject d \<Rightarrow>
          (case map_of d ''destination'' of
             Some (JString s) \<Rightarrow> Inr s
           | _ \<Rightarrow> Inl (OtherException ''validation error''))
      | _ \<Rightarrow> Inl (OtherException ''validation error''))"

definition query_request :: "string \<Rightarrow> request" where
  "query_request q = \<lparr>get_json = Inr (JObject [(''query'', JString q)])\<rparr>"

section \<open>The decoder's counter suffices\<close>

text \<open>
  Every successful scan consumes at least one character, so a counter above twice
  the length of the text is never used up: \<open>json_loads\<close> raises nothing but
  \<open>JSONDecodeError\<close>.
\<close>

lemma skip_ws_length: "skip_ws p s = (q, r) \<Longrightarrow> length r \<le> length s"
  by (auto simp: skip_ws_def length_dropWhile_le)

lemma next_is_tl: "next_is c s \<Longrightarrow> length (tl s) < length s"
  by (cases s) (auto simp: next_is_def)

lemma scanstring_shorter: "scanstring b p acc s = Scanned a q r \<Longrightarrow> length r < length s"
proof (induction b p acc s rule: scanstring.induct)
  case (1 b p acc)
  then show ?case by simp
next
  case (2 b p acc c cs)
  show ?case
  proof (cases "c = CHR 0x22")
    case True
    with 2 show ?thesis by simp
  next
    case nq: False
    show ?thesis
    proof (cases "c = CHR 0x5C")
      case bs: True
      show ?thesis
      proof (cases cs)
        case Nil
        with 2 nq bs show ?thesis by simp
      next
        case (Cons e es)
        show ?thesis
        proof (cases "e = CHR ''u''")
          case u: True
          from "2.prems" nq bs Cons u obtain n where l: "\<not> length es < 5"
            and h: "hex4 (take 4 es) = Some n"
            and s: "scanstring b (p + 6) (acc @ (if n < 256 then [char_of n] else c # e # take 4 es)) (drop 4 es)
                     = Scanned a q r"
            by (auto split: option.splits if_splits)
          from "2.IH"(1) [OF nq bs Cons u l h s] have "length r < length (drop 4 es)" .
          with Cons show ?thesis by simp
        next
          case nu: False
          from "2.prems" nq bs Cons nu obtain d where h: "backslash_escape e = Some d"
            and s: "scanstring b (p + 2) (acc @ [d]) es = Scanned a q r"
            by (auto split: option.splits)
          from "2.IH"(2) [OF nq bs Cons nu h s] have "length r < length es" .
          with Cons show ?thesis by simp
        qed
      qed
    next
      case nbs: False
      with "2.prems" nq have c32: "\<not> (of_char c :: nat) < 32"
        and s: "scanstring b (p + 1) (acc @ [c]) cs = Scanned a q r"
        by (auto split: if_splits)
      from "2.IH"(3) [OF nq nbs c32 s] show ?thesis by simp
    qed
  qed
qed


lemma scanstring_not_exhausted: "scanstring b p acc s \<noteq> Exhausted"
proof (induction b p acc s rule: scanstring.induct)
  case (1 b p acc)
  then show ?case by simp
next
  case (2 b p acc c cs)
  show ?case
  proof (cases "c = CHR 0x22")
    case True
    then show ?thesis by simp
  next
    case nq: False
    show ?thesis
    proof (cases "c = CHR 0x5C")
      case bs: True
      show ?thesis
      proof (cases cs)
        case Nil
        with nq bs show ?thesis by simp
      next
        case (Cons e es)
        show ?thesis
        proof (cases "e = CHR ''u''")
          case u: True
          show ?thesis
          proof (cases "length es < 5")
            case True
            with nq bs Cons u show ?thesis by simp
          next
            case l: False
            show ?thesis
            proof (cases "hex4 (take 4 es)")
              case None
              with nq bs Cons u l show ?thesis by simp
            next
              case (Some n)
              from "2.IH"(1) [OF nq bs Cons u l Some] nq bs Cons u l Some show ?thesis
                by (cases "n < 256") simp_all
            qed
          qed
        next
          case nu: False
          show ?thesis
          proof (cases "backslash_escape e")
            case None
            with nq bs Cons nu show ?thesis by simp
          next
            case (Some d)
            from "2.IH"(2) [OF nq bs Cons nu Some] nq bs Cons nu Some show ?thesis by simp
          qed
        qed
      qed
    next
      case nbs: False
      show ?thesis
      proof (cases "(of_char c :: nat) < 32")
        case True
        with nq nbs show ?thesis by simp
      next
        case False
        from "2.IH"(3) [OF nq nbs False] nq nbs False show ?thesis by simp
      qed
    qed
  qed
qed

lemma drop_shorter: "s \<noteq> [] \<Longrightarrow> 0 < k \<Longrightarrow> length (drop k s) < length s"
  by simp

lemma let_elim: "(let x = a in f x) = r \<Longrightarrow> (\<And>x. f x = r \<Longrightarrow> P) \<Longrightarrow> P"
  by (simp add: Let_def)

lemma match_number_pos: "match_number s = Some (v, k) \<Longrightarrow> 0 < k"
  unfolding match_number_def
  apply (erule let_elim, erule let_elim, erule let_elim, erule let_elim, erule let_elim,
         erule let_elim, erule let_elim, erule let_elim, erule let_elim)
  apply (auto simp: Let_def split: if_splits)
  done

lemma scan_shorter:
  "(\<forall>pos s v p r. scan_once n pos s = Scanned v p r \<longrightarrow> length r < length s) \<and>
   (\<forall>pairs pos s v p r. parse_object n pairs pos s = Scanned v p r \<longrightarrow> length r < length s) \<and>
   (\<forall>acc pos s v p r. parse_array n acc pos s = Scanned v p r \<longrightarrow> length r < length s)"
proof (induction n)
  case 0
  show ?case by simp
next
  case (Suc n)
  then have so: "\<And>pos s v p r. scan_once n pos s = Scanned v p r \<Longrightarrow> length r < length s"
    and po: "\<And>pairs pos s v p r. parse_object n pairs pos s = Scanned v p r \<Longrightarrow> length r < length s"
    and pa: "\<And>acc pos s v p r. parse_array n acc pos s = Scanned v p r \<Longrightarrow> length r < length s"
    by blast+
  have 1: "length r < length s" if h: "scan_once (Suc n) pos s = Scanned v p r" for pos s v p r
  proof -
    from h have ne: "s \<noteq> []" by (auto split: if_splits)
    consider (str) "next_is (CHR 0x22) s"
      | (obj) "\<not> next_is (CHR 0x22) s" "next_is (CHR ''{'') s"
      | (arr) "\<not> next_is (CHR 0x22) s" "\<not> next_is (CHR ''{'') s" "next_is (CHR ''['') s"
      | (atom) "\<not> next_is (CHR 0x22) s" "\<not> next_is (CHR ''{'') s" "\<not> next_is (CHR ''['') s"
      by blast
    then show ?thesis
    proof cases
      case str
      with h ne obtain a where "scanstring pos (pos + 1) [] (tl s) = Scanned a p r"
        by (auto split: scanned.splits)
      then have "length r < length (tl s)" by (rule scanstring_shorter)
      then show ?thesis by simp
    next
      case obj
      obtain q t where sk: "skip_ws (pos + 1) (tl s) = (q, t)" by fastforce
      then have le: "length t \<le> length (tl s)" by (rule skip_ws_length)
      from obj(2) have lt: "length (tl s) < length s" by (rule next_is_tl)
      show ?thesis
      proof (cases "next_is (CHR ''}'') t")
        case True
        with h ne obj sk have "r = tl t" by simp
        with next_is_tl [OF True] le lt show ?thesis by simp
      next
        case False
        with h ne obj sk have "parse_object n [] q t = Scanned v p r" by simp
        from po [OF this] le lt show ?thesis by simp
      qed
    next
      case arr
      obtain q t where sk: "skip_ws (pos + 1) (tl s) = (q, t)" by fastforce
      then have le: "length t \<le> length (tl s)" by (rule skip_ws_length)
      from arr(3) have lt: "length (tl s) < length s" by (rule next_is_tl)
      show ?thesis
      proof (cases "next_is (CHR '']'') t")
        case True
        with h ne arr sk have "r = tl t" by simp
        with next_is_tl [OF True] le lt show ?thesis by simp
      next
        case False
        with h ne arr sk have "parse_array n [] q t = Scanned v p r" by simp
        from pa [OF this] le lt show ?thesis by simp
      qed
    next
      case atom
      with h ne show ?thesis
        by (auto split: if_splits option.splits dest: match_number_pos
              simp del: length_drop intro!: drop_shorter)
    qed
  qed
  have 2: "length r < length s" if h: "parse_object (Suc n) pairs pos s = Scanned v p r"
    for pairs pos s v p r
  proof -
    from h have q: "next_is (CHR 0x22) s" by (auto split: if_splits)
    with h obtain key p0 r0 where k: "scanstring pos (pos + 1) [] (tl s) = Scanned key p0 r0"
      by (auto split: scanned.splits)
    obtain p1 r1 where s1: "skip_ws p0 r0 = (p1, r1)" by fastforce
    from h q k s1 have c: "next_is (CHR '':'') r1" by (auto split: if_splits)
    obtain p2 r2 where s2: "skip_ws (p1 + 1) (tl r1) = (p2, r2)" by fastforce
    from h q k s1 c s2 obtain w p3 r3 where so3: "scan_once n p2 r2 = Scanned w p3 r3"
      by (auto split: scanned.splits)
    obtain p4 r4 where s4: "skip_ws p3 r3 = (p4, r4)" by fastforce
    have l: "length r4 < length s"
      using scanstring_shorter [OF k] skip_ws_length [OF s1] next_is_tl [OF c]
        skip_ws_length [OF s2] so [OF so3] skip_ws_length [OF s4] next_is_tl [OF q]
      by linarith
    show ?thesis
    proof (cases "next_is (CHR ''}'') r4")
      case True
      with h q k s1 c s2 so3 s4 have "r = tl r4" by simp
      with next_is_tl [OF True] l show ?thesis by simp
    next
      case False
      with h q k s1 c s2 so3 s4 have cm: "next_is (CHR '','') r4" by (auto split: if_splits)
      obtain p5 r5 where s5: "skip_ws (p4 + 1) (tl r4) = (p5, r5)" by fastforce
      from h q k s1 c s2 so3 s4 False cm s5
      have "parse_object n (AList.update key w pairs) p5 r5 = Scanned v p r" by simp
      from po [OF this] skip_ws_length [OF s5] next_is_tl [OF cm] l show ?thesis by linarith
    qed
  qed
  have 3: "length r < length s" if h: "parse_array (Suc n) acc pos s = Scanned v p r"
    for acc pos s v p r
  proof -
    from h obtain w p0 r0 where so0: "scan_once n pos s = Scanned w p0 r0"
      by (auto split: scanned.splits)
    obtain p1 r1 where s1: "skip_ws p0 r0 = (p1, r1)" by fastforce
    have l: "length r1 < length s"
      using so [OF so0] skip_ws_length [OF s1] by linarith
    show ?thesis
    proof (cases "next_is (CHR '']'') r1")
      case True
      with h so0 s1 have "r = tl r1" by simp
      with next_is_tl [OF True] l show ?thesis by simp
    next
      case False
      with h so0 s1 have cm: "next_is (CHR '','') r1" by (auto split: if_splits)
      obtain p2 r2 where s2: "skip_ws (p1 + 1) (tl r1) = (p2, r2)" by fastforce
      from h so0 s1 False cm s2 have "parse_array n (acc @ [w]) p2 r2 = Scanned v p r" by simp
      from pa [OF this] skip_ws_length [OF s2] next_is_tl [OF cm] l show ?thesis by linarith
    qed
  qed
  from 1 2 3 show ?case by blast
qed


lemma scan_fuel:
  "(\<forall>pos s. 2 * length s < n \<longrightarrow> scan_once n pos s \<noteq> Exhausted) \<and>
   (\<forall>pairs pos s. 2 * length s + 1 < n \<longrightarrow> parse_object n pairs pos s \<noteq> Exhausted) \<and>
   (\<forall>acc pos s. 2 * length s + 1 < n \<longrightarrow> parse_array n acc pos s \<noteq> Exhausted)"
proof (induction n)
  case 0
  show ?case by simp
next
  case (Suc n)
  then have so: "\<And>pos s. 2 * length s < n \<Longrightarrow> scan_once n pos s \<noteq> Exhausted"
    and po: "\<And>pairs pos s. 2 * length s + 1 < n \<Longrightarrow> parse_object n pairs pos s \<noteq> Exhausted"
    and pa: "\<And>acc pos s. 2 * length s + 1 < n \<Longrightarrow> parse_array n acc pos s \<noteq> Exhausted"
    by blast+
  have 1: "scan_once (Suc n) pos s \<noteq> Exhausted" if b: "2 * length s < Suc n" for pos s
  proof (cases "s = []")
    case True
    then show ?thesis by simp
  next
    case ne: False
    consider (str) "next_is (CHR 0x22) s"
      | (obj) "\<not> next_is (CHR 0x22) s" "next_is (CHR ''{'') s"
      | (arr) "\<not> next_is (CHR 0x22) s" "\<not> next_is (CHR ''{'') s" "next_is (CHR ''['') s"
      | (atom) "\<not> next_is (CHR 0x22) s" "\<not> next_is (CHR ''{'') s" "\<not> next_is (CHR ''['') s"
      by blast
    then show ?thesis
    proof cases
      case str
      with ne scanstring_not_exhausted [of pos "pos + 1" "[]" "tl s"] show ?thesis
        by (simp split: scanned.splits)
    next
      case obj
      obtain q t where sk: "skip_ws (pos + 1) (tl s) = (q, t)" by fastforce
      from skip_ws_length [OF sk] next_is_tl [OF obj(2)] b have "2 * length t + 1 < n"
        by linarith
      from po [OF this] ne obj sk show ?thesis by simp
    next
      case arr
      obtain q t where sk: "skip_ws (pos + 1) (tl s) = (q, t)" by fastforce
      from skip_ws_length [OF sk] next_is_tl [OF arr(3)] b have "2 * length t + 1 < n"
        by linarith
      from pa [OF this] ne arr sk show ?thesis by simp
    next
      case atom
      with ne show ?thesis by (simp split: option.splits)
    qed
  qed
  have 2: "parse_object (Suc n) pairs pos s \<noteq> Exhausted" if b: "2 * length s + 1 < Suc n"
    for pairs pos s
  proof (cases "next_is (CHR 0x22) s")
    case False
    then show ?thesis by simp
  next
    case q: True
    show ?thesis
    proof (cases "scanstring pos (pos + 1) [] (tl s)")
      case (Failed m p)
      with q show ?thesis by simp
    next
      case Exhausted
      with scanstring_not_exhausted show ?thesis by blast
    next
      case k: (Scanned key p0 r0)
      obtain p1 r1 where s1: "skip_ws p0 r0 = (p1, r1)" by fastforce
      show ?thesis
      proof (cases "next_is (CHR '':'') r1")
        case False
        with q k s1 show ?thesis by simp
      next
        case c: True
        obtain p2 r2 where s2: "skip_ws (p1 + 1) (tl r1) = (p2, r2)" by fastforce
        have l2: "length r2 + 2 \<le> length s"
          using scanstring_shorter [OF k] skip_ws_length [OF s1] next_is_tl [OF c]
            skip_ws_length [OF s2] next_is_tl [OF q]
          by linarith
        show ?thesis
        proof (cases "scan_once n p2 r2")
          case (Failed m p)
          with q k s1 c s2 show ?thesis by simp
        next
          case Exhausted
          moreover from l2 b have "2 * length r2 < n" by linarith
          ultimately show ?thesis using so by blast
        next
          case so3: (Scanned w p3 r3)
          obtain p4 r4 where s4: "skip_ws p3 r3 = (p4, r4)" by fastforce
          show ?thesis
          proof (cases "next_is (CHR ''}'') r4")
            case True
            with q k s1 c s2 so3 s4 show ?thesis by simp
          next
            case nb: False
            show ?thesis
            proof (cases "next_is (CHR '','') r4")
              case False
              with q k s1 c s2 so3 s4 nb show ?thesis by simp
            next
              case cm: True
              obtain p5 r5 where s5: "skip_ws (p4 + 1) (tl r4) = (p5, r5)" by fastforce
              have "2 * length r5 + 1 < n"
                using l2 b conjunct1 [OF scan_shorter, rule_format, OF so3]
                  skip_ws_length [OF s4] next_is_tl [OF cm] skip_ws_length [OF s5]
                by linarith
              from po [OF this] q k s1 c s2 so3 s4 nb cm s5 show ?thesis by simp
            qed
          qed
        qed
      qed
    qed
  qed
  have 3: "parse_array (Suc n) acc pos s \<noteq> Exhausted" if b: "2 * length s + 1 < Suc n"
    for acc pos s
  proof (cases "scan_once n pos s")
    case (Failed m p)
    then show ?thesis by simp
  next
    case Exhausted
    moreover from b have "2 * length s < n" by linarith
    ultimately show ?thesis using so by blast
  next
    case so0: (Scanned w p0 r0)
    obtain p1 r1 where s1: "skip_ws p0 r0 = (p1, r1)" by fastforce
    show ?thesis
    proof (cases "next_is (CHR '']'') r1")
      case True
      with so0 s1 show ?thesis by simp
    next
      case nb: False
      show ?thesis
      proof (cases "next_is (CHR '','') r1")
        case False
        with so0 s1 nb show ?thesis by simp
      next
        case cm: True
        obtain p2 r2 where s2: "skip_ws (p1 + 1) (tl r1) = (p2, r2)" by fastforce
        have "2 * length r2 + 1 < n"
          using b conjunct1 [OF scan_shorter, rule_format, OF so0]
            skip_ws_length [OF s1] next_is_tl [OF cm] skip_ws_length [OF s2]
          by linarith
        from pa [OF this] so0 s1 nb cm s2 show ?thesis by simp
      qed
    qed
  qed
  from 1 2 3 show ?case by blast
qed

lemma scan_once_fuel:
  assumes "skip_ws 0 s = (p, r)"
  shows "scan_once (Suc (2 * length s)) p r \<noteq> Exhausted"
proof -
  from skip_ws_length [OF assms] have "2 * length r < Suc (2 * length s)" by linarith
  with scan_fuel [of "Suc (2 * length s)"] show ?thesis by blast
qed

lemma json_loads_raises_only_JSONDecodeError:
  "json_loads s = Inl e \<Longrightarrow> \<exists>m. e = JSONDecodeError m"
proof -
  assume h: "json_loads s = Inl e"
  obtain p r where sk: "skip_ws 0 s = (p, r)" by fastforce
  from scan_once_fuel [OF sk] h sk show ?thesis
    by (auto simp: json_loads_def split: scanned.splits prod.splits if_splits)
qed

section \<open>The dispatch loop\<close>

lemma handle_loop_map: "handle_loop tm results tcs = results @ map (tool_call_outcome tm) tcs"
  by (induction tcs arbitrary: results) simp_all

lemma handle_tool_calls_map:
  "additional_kwargs response = Some tcs \<Longrightarrow> tcs \<noteq> [] \<Longrightarrow>
   handle_tool_calls ts response = map (tool_call_outcome (tool_map ts)) tcs"
  by (simp add: handle_tool_calls_def handle_loop_map)

text \<open>
  C8. For a response without tool calls in its \<open>additional_kwargs\<close> (the key absent, or
  an empty list under it), \<open>handle_tool_calls\<close> returns exactly the one-element list
  \<open>[{"status": "no_tool_calls"}]\<close>.
\<close>

theorem no_tool_calls_single_outcome:
  assumes "additional_kwargs response = None \<or> additional_kwargs response = Some []"
  shows "handle_tool_calls ts response = [[(''status'', JString ''no_tool_calls'')]]"
  using assms by (auto simp: handle_tool_calls_def)

theorem no_tool_calls_single_outcome_witness:
  "additional_kwargs (reply ''Namaste'') = None \<and>
   handle_tool_calls (tools bind_destination None) (reply ''Namaste'')
     = [[(''status'', JString ''no_tool_calls'')]]"
proof -
  have h: "additional_kwargs (reply ''Namaste'') = None"
    by (simp add: reply_def)
  from no_tool_calls_single_outcome [of "reply ''Namaste''" "tools bind_destination None"] h
  show ?thesis by simp
qed

lemma tool_map_snoc: "tool_map (ts @ [t]) = (tool_map ts)(tool_name t \<mapsto> t)"
  by (simp add: tool_map_def)

lemma tool_map_None: "tool_map ts n = None \<longleftrightarrow> n \<notin> tool_name ` set ts"
  by (induction ts rule: rev_induct) (auto simp: tool_map_snoc, simp add: tool_map_def)

text \<open>
  C5. A batch of proposed tool calls gets one outcome per call, in the order of the
  proposals, whatever happens to the single calls: the outcome at index \<open>i\<close> is the
  one of the call at index \<open>i\<close> alone. A failure to parse its arguments, a name that
  is not registered and an exception raised by the tool each become that call's own
  dictionary, and the loop goes on with the next call.
\<close>

theorem dispatch_one_outcome_per_call:
  assumes "additional_kwargs response = Some tcs" and "tcs \<noteq> []"
  shows "length (handle_tool_calls ts response) = length tcs \<and>
    (\<forall>i<length tcs.
       handle_tool_calls ts response ! i =
         (let n = function_name (tcs ! i) in
          case json_loads (function_arguments (tcs ! i)) of
            Inl (JSONDecodeError m) \<Rightarrow> [(''tool'', JString n), (''status'', JString ''invalid_json'')]
          | Inl e \<Rightarrow> [(''tool'', JString n), (''error'', JString (str_exn e))]
          | Inr args \<Rightarrow>
             (case tool_map ts n of
                None \<Rightarrow> [(''tool'', JString n), (''status'', JString ''not_found'')]
              | Some t \<Rightarrow>
                 (case tool_invoke t args of
                    Inl (JSONDecodeError m) \<Rightarrow>
                      [(''tool'', JString n), (''status'', JString ''invalid_json'')]
                  | Inl e \<Rightarrow> [(''tool'', JString n), (''error'', JString (str_exn e))]
                  | Inr r \<Rightarrow>
                      [(''tool'', JString n), (''arguments'', args), (''result'', r)]))))"
proof -
  have eq: "handle_tool_calls ts response = map (tool_call_outcome (tool_map ts)) tcs"
    using assms by (rule handle_tool_calls_map)
  have one: "tool_call_outcome tm tc =
         (let n = function_name tc in
          case json_loads (function_arguments tc) of
            Inl (JSONDecodeError m) \<Rightarrow> [(''tool'', JString n), (''status'', JString ''invalid_json'')]
          | Inl e \<Rightarrow> [(''tool'', JString n), (''error'', JString (str_exn e))]
          | Inr args \<Rightarrow>
             (case tm n of
                None \<Rightarrow> [(''tool'', JString n), (''status'', JString ''not_found'')]
              | Some t \<Rightarrow>
                 (case tool_invoke t args of
                    Inl (JSONDecodeError m) \<Rightarrow>
                      [(''tool'', JString n), (''status'', JString ''invalid_json'')]
                  | Inl e \<Rightarrow> [(''tool'', JString n), (''error'', JString (str_exn e))]
                  | Inr r \<Rightarrow>
                      [(''tool'', JString n), (''arguments'', args), (''result'', r)])))" for tm tc
    by (simp add: tool_call_outcome_def tool_call_try_def Let_def
             split: sum.splits exn.splits option.splits)
  show ?thesis
    unfolding eq by (simp add: one)
qed

theorem dispatch_one_outcome_per_call_witness:
  \<open>length (handle_tool_calls (tools bind_destination (Some (fixed_llm ''{"itinerary": []}'' OtherResponse)))
      (proposing [raw_call ''book_flight'' ''not json'', raw_call ''book_flight'' ''{}'',
         raw_call ''generate_itinerary'' ''{}'',
         raw_call ''generate_itinerary'' ''{"destination": "Pokhara"}''])) = 4\<close>
proof -
  have h: \<open>additional_kwargs
      (proposing [raw_call ''book_flight'' ''not json'', raw_call ''book_flight'' ''{}'',
         raw_call ''generate_itinerary'' ''{}'',
         raw_call ''generate_itinerary'' ''{"destination": "Pokhara"}''])
     = Some [raw_call ''book_flight'' ''not json'', raw_call ''book_flight'' ''{}'',
         raw_call ''generate_itinerary'' ''{}'',
         raw_call ''generate_itinerary'' ''{"destination": "Pokhara"}'']\<close>
    by (simp add: proposing_def)
  from dispatch_one_outcome_per_call [OF h] show ?thesis by simp
qed

text \<open>
  C2, as the code has it. \<open>handle_tool_calls\<close> parses the arguments of a call before it
  looks its name up: a call whose arguments are not JSON is recorded with the status
  \<open>invalid_json\<close> whether or not its name is registered, and a call is recorded as
  \<open>not_found\<close> only when its arguments parse and its name is not registered.
\<close>

theorem parse_precedes_lookup:
  assumes "additional_kwargs response = Some tcs" and "i < length tcs"
  shows "(json_loads (function_arguments (tcs ! i)) = Inl (JSONDecodeError m) \<longrightarrow>
            handle_tool_calls ts response ! i =
              [(''tool'', JString (function_name (tcs ! i))), (''status'', JString ''invalid_json'')])
       \<and> (json_loads (function_arguments (tcs ! i)) = Inr args
            \<and> function_name (tcs ! i) \<notin> tool_name ` set ts \<longrightarrow>
            handle_tool_calls ts response ! i =
              [(''tool'', JString (function_name (tcs ! i))), (''status'', JString ''not_found'')])"
proof -
  from assms have "tcs \<noteq> []" by auto
  with assms have "handle_tool_calls ts response ! i = tool_call_outcome (tool_map ts) (tcs ! i)"
    by (simp add: handle_tool_calls_map)
  then show ?thesis
    by (auto simp: tool_call_outcome_def tool_call_try_def tool_map_None [symmetric])
qed

theorem parse_precedes_lookup_witness:
  \<open>handle_tool_calls (tools bind_destination None)
      (proposing [raw_call ''book_flight'' ''{}'', raw_call ''generate_itinerary'' ''{"destination"'']) ! 1
    = [(''tool'', JString ''generate_itinerary''), (''status'', JString ''invalid_json'')]\<close>
proof -
  have h: \<open>additional_kwargs
      (proposing [raw_call ''book_flight'' ''{}'', raw_call ''generate_itinerary'' ''{"destination"''])
     = Some [raw_call ''book_flight'' ''{}'', raw_call ''generate_itinerary'' ''{"destination"'']\<close>
    by (simp add: proposing_def)
  have i: \<open>(1::nat) < length [raw_call ''book_flight'' ''{}'', raw_call ''generate_itinerary'' ''{"destination"'']\<close>
    by simp
  have p: \<open>json_loads (function_arguments
       ([raw_call ''book_flight'' ''{}'', raw_call ''generate_itinerary'' ''{"destination"''] ! 1))
     = Inl (JSONDecodeError ''Expecting ':' delimiter: line 1 column 15 (char 14)'')\<close>
    by code_simp
  from parse_precedes_lookup [OF h i, of "''Expecting ':' delimiter: line 1 column 15 (char 14)''"] p
  show ?thesis by (simp add: raw_call_def)
qed

theorem unregistered_invalid_json_counterexample:
  \<open>''book_flight'' \<notin> tool_name ` set (tools bind_destination None) \<and>
   handle_tool_calls (tools bind_destination None) (proposing [raw_call ''book_flight'' ''not json''])
     = [[(''tool'', JString ''book_flight''), (''status'', JString ''invalid_json'')]] \<and>
   handle_tool_calls (tools bind_destination None) (proposing [raw_call ''book_flight'' ''not json''])
     \<noteq> [[(''tool'', JString ''book_flight''), (''status'', JString ''not_found'')]]\<close>
proof -
  have a: \<open>''book_flight'' \<notin> tool_name ` set (tools bind_destination None)\<close>
    by (simp add: tools_def generate_itinerary_tool_def)
  have b: \<open>handle_tool_calls (tools bind_destination None) (proposing [raw_call ''book_flight'' ''not json''])
     = [[(''tool'', JString ''book_flight''), (''status'', JString ''invalid_json'')]]\<close>
    by code_simp
  show ?thesis unfolding b using a by simp
qed

section \<open>The endpoint's answer to proposed tool calls\<close>

lemma first_response_skip:
  assumes "\<forall>x\<in>set skipped. map_of x ''result'' = None \<and> map_of x ''error'' = None"
  shows "first_response (skipped @ rest) = first_response rest"
  using assms by (induction skipped) simp_all

lemma api_tool_call_branch:
  assumes "get_json req = Inr data" and "user_input_of data = Inr q" and "q \<noteq> []"
    and "bind_tools_invoke l (map tool_name ts) [SystemMessage system_prompt, HumanMessage q]
           = Inr (AIMessage response)"
    and "tool_calls response \<noteq> []"
  shows "generate_itinerary_api (Some l) ts req = first_response (handle_tool_calls ts response)"
  using assms by (simp add: generate_itinerary_api_def generate_itinerary_api_try_def)

text \<open>
  C1, as the code has it. When the model's response proposes tool calls, the view
  answers with the first outcome that carries a result or an error, whichever of
  the two that outcome carries: 200 with \<open>{"itinerary": result}\<close> for a result,
  400 with \<open>{"error": message}\<close> for an error. Outcomes before it that carry neither
  are passed over; outcomes after it are not looked at.
\<close>

theorem first_result_or_error_answers:
  assumes "get_json req = Inr data" and "user_input_of data = Inr q" and "q \<noteq> []"
    and "bind_tools_invoke l (map tool_name ts) [SystemMessage system_prompt, HumanMessage q]
           = Inr (AIMessage response)"
    and "tool_calls response \<noteq> []"
    and "handle_tool_calls ts response = skipped @ d # rest"
    and "\<forall>x\<in>set skipped. map_of x ''result'' = None \<and> map_of x ''error'' = None"
  shows "(map_of d ''result'' = Some r \<longrightarrow>
            generate_itinerary_api (Some l) ts req = Some (200, JObject [(''itinerary'', r)]))
       \<and> (map_of d ''result'' = None \<and> map_of d ''error'' = Some e \<longrightarrow>
            generate_itinerary_api (Some l) ts req = Some (400, JObject [(''error'', e)]))"
proof -
  have "generate_itinerary_api (Some l) ts req = first_response (skipped @ d # rest)"
    using assms(1-6) by (simp add: api_tool_call_branch)
  also have "\<dots> = first_response (d # rest)"
    using assms(7) by (rule first_response_skip)
  finally show ?thesis by auto
qed

theorem first_result_or_error_answers_witness:
  \<open>generate_itinerary_api
      (Some (fixed_llm ''{"itinerary": []}''
         (AIMessage (proposing [raw_call ''book_flight'' ''{}'',
            raw_call ''generate_itinerary'' ''{"destination": "Pokhara"}'']))))
      (tools bind_destination (Some (fixed_llm ''{"itinerary": []}'' OtherResponse)))
      (query_request ''Plan a 3-day trip to Pokhara'')
    = Some (200, JObject [(''itinerary'', JObject [(''itinerary'', JArray [])])])\<close>
proof -
  let ?m = \<open>proposing [raw_call ''book_flight'' ''{}'',
            raw_call ''generate_itinerary'' ''{"destination": "Pokhara"}'']\<close>
  let ?l = \<open>fixed_llm ''{"itinerary": []}'' (AIMessage ?m)\<close>
  let ?ts = \<open>tools bind_destination (Some (fixed_llm ''{"itinerary": []}'' OtherResponse))\<close>
  let ?q = "''Plan a 3-day trip to Pokhara''"
  let ?d = \<open>[(''tool'', JString ''generate_itinerary''),
             (''arguments'', JObject [(''destination'', JString ''Pokhara'')]),
             (''result'', JObject [(''itinerary'', JArray [])])]\<close>
  let ?skipped = "[[(''tool'', JString ''book_flight''), (''status'', JString ''not_found'')]]"
  have a: "get_json (query_request ?q) = Inr (JObject [(''query'', JString ?q)])"
    by (simp add: query_request_def)
  have b: "user_input_of (JObject [(''query'', JString ?q)]) = Inr ?q"
    by code_simp
  have c: "?q \<noteq> []" by simp
  have d: "bind_tools_invoke ?l (map tool_name ?ts) [SystemMessage system_prompt, HumanMessage ?q]
             = Inr (AIMessage ?m)"
    by (simp add: fixed_llm_def)
  have e: "tool_calls ?m \<noteq> []"
    by (simp add: proposing_def)
  have f: "handle_tool_calls ?ts ?m = ?skipped @ ?d # []"
    by code_simp
  have g: "\<forall>x\<in>set ?skipped. map_of x ''result'' = None \<and> map_of x ''error'' = None"
    by simp
  have h: "map_of ?d ''result'' = Some (JObject [(''itinerary'', JArray [])])"
    by simp
  from first_result_or_error_answers [OF a b c d e f g, of "JObject [(''itinerary'', JArray [])]"] h
  show ?thesis by blast
qed

theorem error_before_result_counterexample:
  \<open>handle_tool_calls (tools bind_destination (Some (fixed_llm ''{"itinerary": []}'' OtherResponse)))
      (proposing [raw_call ''generate_itinerary'' ''{}'',
         raw_call ''generate_itinerary'' ''{"destination": "Pokhara"}''])
    = [[(''tool'', JString ''generate_itinerary''), (''error'', JString ''validation error'')],
       [(''tool'', JString ''generate_itinerary''),
        (''arguments'', JObject [(''destination'', JString ''Pokhara'')]),
        (''result'', JObject [(''itinerary'', JArray [])])]]
   \<and> generate_itinerary_api
      (Some (fixed_llm ''{"itinerary": []}''
         (AIMessage (proposing [raw_call ''generate_itinerary'' ''{}'',
            raw_call ''generate_itinerary'' ''{"destination": "Pokhara"}'']))))
      (tools bind_destination (Some (fixed_llm ''{"itinerary": []}'' OtherResponse)))
      (query_request ''Plan a 3-day trip to Pokhara'')
    = Some (400, JObject [(''error'', JString ''validation error'')])\<close>
  by code_simp

text \<open>
  C4. When the model's response proposes tool calls and no outcome of the dispatch
  carries a result or an error (each holds only a status, as the outcomes for an
  unregistered name, for arguments that do not parse and for no tool calls do), the
  loop of the view ends without a \<open>return\<close>: the view returns no response.
\<close>

theorem status_only_outcomes_fall_through:
  assumes "get_json req = Inr data" and "user_input_of data = Inr q" and "q \<noteq> []"
    and "bind_tools_invoke l (map tool_name ts) [SystemMessage system_prompt, HumanMessage q]
           = Inr (AIMessage response)"
    and "tool_calls response \<noteq> []"
    and "\<forall>x\<in>set (handle_tool_calls ts response).
           map_of x ''result'' = None \<and> map_of x ''error'' = None"
  shows "generate_itinerary_api (Some l) ts req = None"
proof -
  have "generate_itinerary_api (Some l) ts req = first_response (handle_tool_calls ts response @ [])"
    using assms(1-5) by (simp add: api_tool_call_branch)
  also have "\<dots> = first_response []"
    using assms(6) by (rule first_response_skip)
  finally show ?thesis by simp
qed

theorem status_only_outcomes_fall_through_witness:
  \<open>generate_itinerary_api
      (Some (fixed_llm ''{"itinerary": []}''
         (AIMessage (proposing [raw_call ''book_flight'' ''{}'',
            raw_call ''generate_itinerary'' ''{"destination"'']))))
      (tools bind_destination (Some (fixed_llm ''{"itinerary": []}'' OtherResponse)))
      (query_request ''Book me a flight'')
    = None\<close>
proof -
  let ?m = \<open>proposing [raw_call ''book_flight'' ''{}'', raw_call ''generate_itinerary'' ''{"destination"'']\<close>
  let ?l = \<open>fixed_llm ''{"itinerary": []}'' (AIMessage ?m)\<close>
  let ?ts = \<open>tools bind_destination (Some (fixed_llm ''{"itinerary": []}'' OtherResponse))\<close>
  let ?q = "''Book me a flight''"
  have a: "get_json (query_request ?q) = Inr (JObject [(''query'', JString ?q)])"
    by (simp add: query_request_def)
  have b: "user_input_of (JObject [(''query'', JString ?q)]) = Inr ?q"
    by code_simp
  have c: "?q \<noteq> []" by simp
  have d: "bind_tools_invoke ?l (map tool_name ?ts) [SystemMessage system_prompt, HumanMessage ?q]
             = Inr (AIMessage ?m)"
    by (simp add: fixed_llm_def)
  have e: "tool_calls ?m \<noteq> []"
    by (simp add: proposing_def)
  have f: "handle_tool_calls ?ts ?m
      = [[(''tool'', JString ''book_flight''), (''status'', JString ''not_found'')],
         [(''tool'', JString ''generate_itinerary''), (''status'', JString ''invalid_json'')]]"
    by code_simp
  have g: "\<forall>x\<in>set (handle_tool_calls ?ts ?m).
             map_of x ''result'' = None \<and> map_of x ''error'' = None"
    unfolding f by simp
  from status_only_outcomes_fall_through [OF a b c d e g] show ?thesis .
qed

text \<open>
  C9. When the client handle is unset, the view answers 503 with the fixed message,
  whatever the request is and whatever its body parses to, also when the body
  cannot be parsed: the test of the handle comes first. The handle is unset when
  \<open>GROQ_API_KEY\<close> is absent, empty or the placeholder, and when the constructor of
  the client raises.
\<close>

theorem unconfigured_answers_503:
  "(main_llm api_key ChatGroq = None \<longrightarrow>
      generate_itinerary_api (main_llm api_key ChatGroq) ts req =
        Some (503, JObject [(''error'', JString
          ''Service temporarily unavailable. Please configure GROQ_API_KEY environment variable.'')]))
   \<and> main_llm None ChatGroq = None
   \<and> main_llm (Some []) ChatGroq = None
   \<and> main_llm (Some ''your_groq_api_key_here'') ChatGroq = None
   \<and> (ChatGroq k = Inl e \<longrightarrow> main_llm (Some k) ChatGroq = None)"
  by (simp add: main_llm_def generate_itinerary_api_def generate_itinerary_api_try_def
        error_dict_def)

theorem unconfigured_answers_503_witness:
  "generate_itinerary_api (main_llm (Some ''your_groq_api_key_here'') (\<lambda>k. Inr (fixed_llm [] OtherResponse)))
      (tools bind_destination None) \<lparr>get_json = Inl (OtherException ''400 Bad Request'')\<rparr>
    = Some (503, JObject [(''error'', JString
          ''Service temporarily unavailable. Please configure GROQ_API_KEY environment variable.'')])"
proof -
  have h: "main_llm (Some ''your_groq_api_key_here'') (\<lambda>k. Inr (fixed_llm [] OtherResponse)) = None"
    by (simp add: main_llm_def)
  from unconfigured_answers_503 [of "Some ''your_groq_api_key_here''"
      "\<lambda>k. Inr (fixed_llm [] OtherResponse)" "tools bind_destination None"
      "\<lparr>get_json = Inl (OtherException ''400 Bad Request'')\<rparr>"] h
  show ?thesis by blast
qed

section \<open>The itinerary tool\<close>

lemma json_loads_empty:
  "json_loads [] = Inl (JSONDecodeError ''Expecting value: line 1 column 1 (char 0)'')"
  by code_simp

lemma generate_itinerary_raises:
  "invoke l (prompt d) = Inl e \<Longrightarrow> generate_itinerary (Some l) d = error_dict (str_exn e)"
  by (simp add: generate_itinerary_def generate_itinerary_try_def)

lemma generate_itinerary_blank:
  "invoke l (prompt d) = Inr r \<Longrightarrow> strip (content r) = [] \<Longrightarrow>
   generate_itinerary (Some l) d = error_dict ''Empty response received from model.''"
  by (simp add: generate_itinerary_def generate_itinerary_try_def)

lemma generate_itinerary_try_parses:
  "invoke l (prompt d) = Inr r \<Longrightarrow> strip (content r) \<noteq> [] \<Longrightarrow>
   generate_itinerary_try (Some l) d =
     json_loads (strip (replace ''<tool-use></tool-use>'' []
       (replace ''```'' [] (replace ''```json'' [] (content r)))))"
  by (simp add: generate_itinerary_try_def)

text \<open>
  C6. \<open>generate_itinerary\<close> reports every failure as a dictionary with the one key
  \<open>error\<close>: the message of the exception when the call of the model raises, the fixed
  text \<open>Empty response received from model.\<close> when the content of the response is
  empty or blank, and the message of the decoder when the cleaned content is not
  JSON. No exception leaves the function.
\<close>

theorem generate_itinerary_failures_are_data:
  "(invoke l (prompt d) = Inl e \<longrightarrow>
      generate_itinerary (Some l) d = JObject [(''error'', JString (str_exn e))])
   \<and> (invoke l (prompt d) = Inr r \<and> strip (content r) = [] \<longrightarrow>
      generate_itinerary (Some l) d =
        JObject [(''error'', JString ''Empty response received from model.'')])
   \<and> (invoke l (prompt d) = Inr r \<and> strip (content r) \<noteq> [] \<and>
      json_loads (strip (replace ''<tool-use></tool-use>'' []
        (replace ''```'' [] (replace ''```json'' [] (content r))))) = Inl e \<longrightarrow>
      generate_itinerary (Some l) d = JObject [(''error'', JString (str_exn e))])"
  by (simp add: generate_itinerary_raises generate_itinerary_blank error_dict_def)
     (simp add: generate_itinerary_def generate_itinerary_try_parses error_dict_def)

theorem generate_itinerary_failures_are_data_witness:
  "generate_itinerary
     (Some \<lparr>invoke = (\<lambda>p. Inl (LangChainException ''Request timed out.'')),
            bind_tools_invoke = (\<lambda>names msgs. Inr OtherResponse)\<rparr>) ''Pokhara''
     = JObject [(''error'', JString ''Request timed out.'')]
   \<and> generate_itinerary (Some (fixed_llm ''   '' OtherResponse)) ''Pokhara''
     = JObject [(''error'', JString ''Empty response received from model.'')]"
proof -
  let ?l = "\<lparr>invoke = (\<lambda>p. Inl (LangChainException ''Request timed out.'')),
            bind_tools_invoke = (\<lambda>names msgs. Inr OtherResponse)\<rparr>"
  have a: "invoke ?l (prompt ''Pokhara'') = Inl (LangChainException ''Request timed out.'')"
    by simp
  have b: "invoke (fixed_llm ''   '' OtherResponse) (prompt ''Pokhara'') = Inr (reply ''   '')"
    by (simp add: fixed_llm_def)
  have c: "strip (content (reply ''   '')) = []"
    by code_simp
  from generate_itinerary_failures_are_data
         [of ?l "''Pokhara''" "LangChainException ''Request timed out.''"] a
  have 1: "generate_itinerary (Some ?l) ''Pokhara'' = JObject [(''error'', JString ''Request timed out.'')]"
    by simp
  from generate_itinerary_failures_are_data
         [of "fixed_llm ''   '' OtherResponse" "''Pokhara''" _ "reply ''   ''"] b c
  have 2: "generate_itinerary (Some (fixed_llm ''   '' OtherResponse)) ''Pokhara''
     = JObject [(''error'', JString ''Empty response received from model.'')]"
    by blast
  from 1 2 show ?thesis by simp
qed

text \<open>
  C3, as the code has it. The test for an empty response is made on the raw content,
  before the cleanup: a raw content that is empty or blank gives the fixed
  \<open>Empty response received from model.\<close> error; a raw content that is not blank but
  is empty after the cleanup (only the removed markers and whitespace) goes to the
  decoder and gives its error \<open>Expecting value: line 1 column 1 (char 0)\<close>.
\<close>

theorem empty_test_precedes_cleanup:
  "(invoke l (prompt d) = Inr r \<and> strip (content r) = [] \<longrightarrow>
      generate_itinerary (Some l) d =
        JObject [(''error'', JString ''Empty response received from model.'')])
   \<and> (invoke l (prompt d) = Inr r \<and> strip (content r) \<noteq> [] \<and>
      strip (replace ''<tool-use></tool-use>'' []
        (replace ''```'' [] (replace ''```json'' [] (content r)))) = [] \<longrightarrow>
      generate_itinerary (Some l) d =
        JObject [(''error'', JString ''Expecting value: line 1 column 1 (char 0)'')])"
  by (simp add: generate_itinerary_blank error_dict_def)
     (simp add: generate_itinerary_def generate_itinerary_try_parses json_loads_empty error_dict_def)

theorem empty_test_precedes_cleanup_witness:
  "generate_itinerary (Some (fixed_llm '' <tool-use></tool-use> '' OtherResponse)) ''Pokhara''
     = JObject [(''error'', JString ''Expecting value: line 1 column 1 (char 0)'')]"
proof -
  let ?l = "fixed_llm '' <tool-use></tool-use> '' OtherResponse"
  let ?r = "reply '' <tool-use></tool-use> ''"
  have a: "invoke ?l (prompt ''Pokhara'') = Inr ?r"
    by (simp add: fixed_llm_def)
  have b: "strip (content ?r) \<noteq> []"
    by code_simp
  have c: "strip (replace ''<tool-use></tool-use>'' []
        (replace ''```'' [] (replace ''```json'' [] (content ?r)))) = []"
    by code_simp
  from empty_test_precedes_cleanup [of ?l "''Pokhara''" ?r] a b c
  show ?thesis by blast
qed

theorem markers_only_counterexample:
  "strip (replace ''<tool-use></tool-use>'' []
     (replace ''```'' [] (replace ''```json'' [] ''```json\<newline>```''))) = []
   \<and> generate_itinerary (Some (fixed_llm ''```json\<newline>```'' OtherResponse)) ''Pokhara''
     = JObject [(''error'', JString ''Expecting value: line 1 column 1 (char 0)'')]
   \<and> generate_itinerary (Some (fixed_llm ''```json\<newline>```'' OtherResponse)) ''Pokhara''
     \<noteq> JObject [(''error'', JString ''Empty response received from model.'')]"
proof -
  have a: "strip (replace ''<tool-use></tool-use>'' []
     (replace ''```'' [] (replace ''```json'' [] ''```json\<newline>```''))) = []"
    by code_simp
  have b: "generate_itinerary (Some (fixed_llm ''```json\<newline>```'' OtherResponse)) ''Pokhara''
     = JObject [(''error'', JString ''Expecting value: line 1 column 1 (char 0)'')]"
    by code_simp
  show ?thesis unfolding b using a by simp
qed

section \<open>The cleanup of the model's text\<close>

text \<open>
  What \<open>replace\<close> does with a pattern that is not empty: the text before the first
  occurrence is kept, the occurrence is replaced, and the scan goes on behind it; a
  text without an occurrence is returned as it is.
\<close>

lemma replace_before_first:
  assumes "old \<noteq> []" and "\<forall>i<length a. \<not> prefix old (drop i (a @ t))"
  shows "replace old new (a @ t) = a @ replace old new t"
  using assms(2)
proof (induction a)
  case Nil
  show ?case by simp
next
  case (Cons c a)
  from Cons.prems have "\<not> prefix old (drop 0 ((c # a) @ t))" by blast
  then have np: "\<not> prefix old (c # a @ t)" by simp
  have "\<forall>i<length a. \<not> prefix old (drop i (a @ t))"
  proof (intro allI impI)
    fix i assume "i < length a"
    then have "Suc i < length (c # a)" by simp
    with Cons.prems have "\<not> prefix old (drop (Suc i) ((c # a) @ t))" by blast
    then show "\<not> prefix old (drop i (a @ t))" by simp
  qed
  then have "replace old new (a @ t) = a @ replace old new t" by (rule Cons.IH)
  with assms(1) np show ?case by simp
qed

lemma replace_at_occurrence:
  assumes "old \<noteq> []"
  shows "replace old new (old @ b) = new @ replace old new b"
proof (cases old)
  case Nil
  with assms show ?thesis by simp
next
  case (Cons c cs)
  have "replace old new (c # (cs @ b)) =
          new @ replace old new (drop (length old) (c # (cs @ b)))"
    using assms Cons by (simp del: drop_Suc_Cons)
  moreover have "drop (length old) (c # (cs @ b)) = b"
    using Cons by simp
  ultimately show ?thesis using Cons by simp
qed

lemma replace_first_occurrence:
  assumes "old \<noteq> []" and "\<forall>i<length a. \<not> prefix old (drop i (a @ old @ b))"
  shows "replace old new (a @ old @ b) = a @ new @ replace old new b"
  using replace_before_first [OF assms] replace_at_occurrence [OF assms(1)] by simp

lemma replace_no_occurrence:
  assumes "old \<noteq> []" and "\<forall>i<length s. \<not> prefix old (drop i s)"
  shows "replace old new s = s"
proof -
  from assms(2) have "\<forall>i<length s. \<not> prefix old (drop i (s @ []))" by simp
  from replace_before_first [OF assms(1) this] assms(1) show ?thesis by simp
qed

text \<open>
  What \<open>strip\<close> does: it cuts a run of whitespace from each end, and what is left
  neither begins nor ends with whitespace.
\<close>

lemma strip_split:
  "dropWhile isspace s = strip s @ rev (takeWhile isspace (rev (dropWhile isspace s)))"
proof -
  let ?t = "dropWhile isspace s"
  have "rev (takeWhile isspace (rev ?t) @ dropWhile isspace (rev ?t))
          = rev (dropWhile isspace (rev ?t)) @ rev (takeWhile isspace (rev ?t))"
    by (rule rev_append)
  moreover have "takeWhile isspace (rev ?t) @ dropWhile isspace (rev ?t) = rev ?t"
    by (rule takeWhile_dropWhile_id)
  ultimately have "rev (rev ?t)
          = rev (dropWhile isspace (rev ?t)) @ rev (takeWhile isspace (rev ?t))"
    by (simp only:)
  then show ?thesis by (simp only: rev_rev_ident strip_def)
qed

lemma strip_cuts_whitespace:
  "\<exists>pre post. s = pre @ strip s @ post \<and> (\<forall>c\<in>set pre. isspace c) \<and> (\<forall>c\<in>set post. isspace c)"
proof -
  let ?t = "dropWhile isspace s"
  have a: "s = takeWhile isspace s @ ?t" by simp
  have c: "\<forall>c\<in>set (takeWhile isspace s). isspace c"
    by (auto dest: set_takeWhileD)
  have d: "\<forall>c\<in>set (rev (takeWhile isspace (rev ?t))). isspace c"
    by (auto dest: set_takeWhileD)
  from a strip_split [of s]
  have "s = takeWhile isspace s @ strip s @ rev (takeWhile isspace (rev ?t))"
    by (simp only:)
  with c d show ?thesis by blast
qed

lemma strip_ends:
  assumes "strip s \<noteq> []"
  shows "\<not> isspace (hd (strip s)) \<and> \<not> isspace (last (strip s))"
proof -
  let ?t = "dropWhile isspace s"
  let ?u = "dropWhile isspace (rev ?t)"
  from assms have u: "?u \<noteq> []" by (simp add: strip_def)
  have t: "?t \<noteq> []"
  proof
    assume e: "?t = []"
    have "?u = []" by (simp only: e rev.simps dropWhile.simps)
    with u show False by contradiction
  qed
  from u have 1: "\<not> isspace (hd ?u)" by (rule hd_dropWhile)
  from t have 2: "\<not> isspace (hd ?t)" by (rule hd_dropWhile)
  have l: "last (strip s) = hd ?u"
    using u by (simp add: strip_def last_rev)
  from assms strip_split [of s] have "hd ?t = hd (strip s)"
    by (metis hd_append2)
  with 1 2 l show ?thesis by simp
qed

text \<open>
  C7. For a response whose content is not blank, the tool removes every occurrence of
  \<open>```json\<close>, then of \<open>```\<close>, then of \<open><tool-use></tool-use>\<close>, strips the
  whitespace at both ends and gives the rest to the JSON decoder unchanged. Removing
  every occurrence is what \<open>replace\<close> does: up to the first occurrence the text is
  kept, the occurrence is dropped and the rest is treated the same way, and a text
  without an occurrence is unchanged. Stripping cuts a run of whitespace from each
  end and leaves a text that neither begins nor ends with whitespace. On the content
  \<open>```json\n{"a":1}\n```\<close> the result is the object \<open>{"a": 1}\<close>, and so it is when
  each marker stands twice and the whitespace around is a vertical tab, a form feed
  and a no-break space; on \<open>{not valid json\<close> the decoder raises
  \<open>JSONDecodeError\<close>, nothing is repaired, and the tool returns the decoder's
  message as its error.
\<close>

theorem cleanup_then_strict_parse:
  \<open>(invoke l (prompt d) = Inr r \<and> strip (content r) \<noteq> [] \<longrightarrow>
      generate_itinerary_try (Some l) d =
        json_loads (strip (replace ''<tool-use></tool-use>'' []
          (replace ''```'' [] (replace ''```json'' [] (content r))))))
   \<and> (old \<noteq> [] \<and> (\<forall>i<length a. \<not> prefix old (drop i (a @ old @ b))) \<longrightarrow>
        replace old new (a @ old @ b) = a @ new @ replace old new b)
   \<and> (old \<noteq> [] \<and> (\<forall>i<length s. \<not> prefix old (drop i s)) \<longrightarrow> replace old new s = s)
   \<and> (\<exists>pre post. s = pre @ strip s @ post
         \<and> (\<forall>c\<in>set pre. isspace c) \<and> (\<forall>c\<in>set post. isspace c))
   \<and> (strip s \<noteq> [] \<longrightarrow> \<not> isspace (hd (strip s)) \<and> \<not> isspace (last (strip s)))
   \<and> generate_itinerary_try (Some (fixed_llm ''```json\<newline>{"a":1}\<newline>```'' OtherResponse)) d
       = Inr (JObject [(''a'', JInt 1)])
   \<and> generate_itinerary (Some (fixed_llm ''```json\<newline>{"a":1}\<newline>```'' OtherResponse)) d
       = JObject [(''a'', JInt 1)]
   \<and> generate_itinerary_try (Some (fixed_llm
        ([CHR 0x0B] @ '' ```json```json\<newline>{"a":1}\<newline>``````<tool-use></tool-use><tool-use></tool-use>''
           @ [CHR 0x0C, CHR 0xA0]) OtherResponse)) d
       = Inr (JObject [(''a'', JInt 1)])
   \<and> generate_itinerary_try (Some (fixed_llm ''{not valid json'' OtherResponse)) d
       = Inl (JSONDecodeError
           ''Expecting property name enclosed in double quotes: line 1 column 2 (char 1)'')
   \<and> generate_itinerary (Some (fixed_llm ''{not valid json'' OtherResponse)) d
       = JObject [(''error'', JString
           ''Expecting property name enclosed in double quotes: line 1 column 2 (char 1)'')]\<close>
proof -
  let ?twice = \<open>[CHR 0x0B] @ '' ```json```json\<newline>{"a":1}\<newline>``````<tool-use></tool-use><tool-use></tool-use>''
           @ [CHR 0x0C, CHR 0xA0]\<close>
  have a: \<open>strip (content (reply ''```json\<newline>{"a":1}\<newline>```'')) \<noteq> []\<close>
    by code_simp
  have b: \<open>json_loads (strip (replace ''<tool-use></tool-use>'' []
          (replace ''```'' [] (replace ''```json'' []
             (content (reply ''```json\<newline>{"a":1}\<newline>```''))))))
       = Inr (JObject [(''a'', JInt 1)])\<close>
    by code_simp
  have c: \<open>strip (content (reply ''{not valid json'')) \<noteq> []\<close>
    by code_simp
  have e: \<open>json_loads (strip (replace ''<tool-use></tool-use>'' []
          (replace ''```'' [] (replace ''```json'' []
             (content (reply ''{not valid json''))))))
       = Inl (JSONDecodeError
           ''Expecting property name enclosed in double quotes: line 1 column 2 (char 1)'')\<close>
    by code_simp
  have f: "strip (content (reply ?twice)) \<noteq> []"
    by code_simp
  have g: \<open>json_loads (strip (replace ''<tool-use></tool-use>'' []
          (replace ''```'' [] (replace ''```json'' [] (content (reply ?twice))))))
       = Inr (JObject [(''a'', JInt 1)])\<close>
    by code_simp
  have i: "invoke (fixed_llm raw OtherResponse) (prompt d) = Inr (reply raw)" for raw
    by (simp add: fixed_llm_def)
  have 1: \<open>generate_itinerary_try (Some (fixed_llm ''```json\<newline>{"a":1}\<newline>```'' OtherResponse)) d
       = Inr (JObject [(''a'', JInt 1)])\<close>
    using generate_itinerary_try_parses [OF i a] b by simp
  have 2: \<open>generate_itinerary_try (Some (fixed_llm ''{not valid json'' OtherResponse)) d
       = Inl (JSONDecodeError
           ''Expecting property name enclosed in double quotes: line 1 column 2 (char 1)'')\<close>
    using generate_itinerary_try_parses [OF i c] e by simp
  have 3: \<open>generate_itinerary_try (Some (fixed_llm ?twice OtherResponse)) d
       = Inr (JObject [(''a'', JInt 1)])\<close>
    using generate_itinerary_try_parses [OF i f] g by simp
  have 4: "generate_itinerary (Some (fixed_llm ''```json\<newline>{\"a\":1}\<newline>```'' OtherResponse)) d
       = JObject [(''a'', JInt 1)]"
    by (simp add: generate_itinerary_def 1)
  have 5: "generate_itinerary (Some (fixed_llm ''{not valid json'' OtherResponse)) d
       = JObject [(''error'', JString
           ''Expecting property name enclosed in double quotes: line 1 column 2 (char 1)'')]"
    by (simp add: generate_itinerary_def 2 error_dict_def)
  have 6: "invoke l (prompt d) = Inr r \<and> strip (content r) \<noteq> [] \<longrightarrow>
      generate_itinerary_try (Some l) d =
        json_loads (strip (replace ''<tool-use></tool-use>'' []
          (replace ''```'' [] (replace ''```json'' [] (content r)))))"
    by (simp add: generate_itinerary_try_parses)
  have 7: "old \<noteq> [] \<and> (\<forall>i<length a. \<not> prefix old (drop i (a @ old @ b))) \<longrightarrow>
        replace old new (a @ old @ b) = a @ new @ replace old new b"
    using replace_first_occurrence by blast
  have 8: "old \<noteq> [] \<and> (\<forall>i<length s. \<not> prefix old (drop i s)) \<longrightarrow> replace old new s = s"
    using replace_no_occurrence by blast
  have 9: "strip s \<noteq> [] \<longrightarrow> \<not> isspace (hd (strip s)) \<and> \<not> isspace (last (strip s))"
    using strip_ends by blast
  from 6 7 8 strip_cuts_whitespace [of s] 9 1 4 3 2 5 show ?thesis
    by (intro conjI)
qed

theorem cleanup_then_strict_parse_witness:
  \<open>generate_itinerary_try (Some (fixed_llm ''<tool-use></tool-use>```json [1, 2] ```'' OtherResponse)) ''Pokhara''
     = Inr (JArray [JInt 1, JInt 2])
   \<and> replace ''```'' [] ''x```y```z'' = ''xyz''\<close>
proof -
  let ?l = \<open>fixed_llm ''<tool-use></tool-use>```json [1, 2] ```'' OtherResponse\<close>
  let ?r = \<open>reply ''<tool-use></tool-use>```json [1, 2] ```''\<close>
  have a: "invoke ?l (prompt ''Pokhara'') = Inr ?r"
    by (simp add: fixed_llm_def)
  have b: "strip (content ?r) \<noteq> []"
    by code_simp
  have c: "json_loads (strip (replace ''<tool-use></tool-use>'' []
          (replace ''```'' [] (replace ''```json'' [] (content ?r)))))
       = Inr (JArray [JInt 1, JInt 2])"
    by code_simp
  have n: "''```'' \<noteq> []" by simp
  have h: "\<forall>i<length ''x''. \<not> prefix ''```'' (drop i (''x'' @ ''```'' @ ''y```z''))"
    by simp
  have t: "replace ''```'' [] ''y```z'' = ''yz''"
    by code_simp
  note inst = cleanup_then_strict_parse
    [of ?l "''Pokhara''" ?r "''```''" "''x''" "''y```z''" "[]"]
  from inst a b c have 1: "generate_itinerary_try (Some ?l) ''Pokhara'' = Inr (JArray [JInt 1, JInt 2])"
    by simp
  from inst n h have "replace ''```'' [] (''x'' @ ''```'' @ ''y```z'') = ''x'' @ [] @ replace ''```'' [] ''y```z''"
    by blast
  with t have 2: "replace ''```'' [] ''x```y```z'' = ''xyz''" by simp
  from 1 2 show ?thesis by simp
qed

text \<open>
  C10. The cleanup is not the identity on valid JSON: there is a raw content that the
  decoder accepts as it is and for which the tool returns another parsed value,
  because the markers are removed inside string values too. The content
  \<open>{"a":"```"}\<close> is one: parsed directly it has the value \<open>```\<close> under \<open>a\<close>; the tool
  parses the cleaned content and returns the empty string under \<open>a\<close>.
\<close>

theorem cleanup_changes_valid_json:
  \<open>\<exists>raw v w. json_loads raw = Inr v
      \<and> json_loads (strip (replace ''<tool-use></tool-use>'' []
           (replace ''```'' [] (replace ''```json'' [] raw)))) = Inr w
      \<and> generate_itinerary_try (Some (fixed_llm raw OtherResponse)) ''Pokhara'' = Inr w
      \<and> generate_itinerary (Some (fixed_llm raw OtherResponse)) ''Pokhara'' = w
      \<and> w \<noteq> v\<close>
proof -
  have a: \<open>json_loads ''{"a":"```"}'' = Inr (JObject [(''a'', JString ''```'')])\<close>
    by code_simp
  have b: \<open>json_loads (strip (replace ''<tool-use></tool-use>'' []
           (replace ''```'' [] (replace ''```json'' [] ''{"a":"```"}''))))
     = Inr (JObject [(''a'', JString [])])\<close>
    by code_simp
  have c: \<open>generate_itinerary_try (Some (fixed_llm ''{"a":"```"}'' OtherResponse)) ''Pokhara''
     = Inr (JObject [(''a'', JString [])])\<close>
    by code_simp
  have d: \<open>generate_itinerary (Some (fixed_llm ''{"a":"```"}'' OtherResponse)) ''Pokhara''
     = JObject [(''a'', JString [])]\<close>
    by (simp add: generate_itinerary_def c)
  have e: \<open>JObject [(''a'', JString [])] \<noteq> JObject [(''a'', JString ''```'')]\<close>
    by simp
  from a b c d e show ?thesis by blast
qed

end
